theory Spec2Isabelle
  imports Main "HOL-Library.Word" "HOL-Library.Sublist"
begin

unbundle bit_operations_syntax

section \<open>flashfloppy\_to\_hfe: the shallow embedding of main.c\<close>

text \<open>
  The program reads a file of 16-bit flux samples, hands them to one decoding strategy
  together with a bitcell buffer, and writes the decoded bitcells as a one-track HFE file.
  The model follows \<^verbatim>\<open>main\<close> statement by statement. What the C code gets from
  its surroundings is a field of the record \<open>env\<close>: the command line, the files, the
  outcome of each library call that can fail, the contents of memory that the code uses
  without initialising it, and the decoding strategies (their sources are the headers
  included at the top of main.c, which are not part of the embedded file).

  Host conventions: \<^verbatim>\<open>int\<close> and \<^verbatim>\<open>uint32_t\<close> have 32 bits,
  \<^verbatim>\<open>long\<close> and \<^verbatim>\<open>size_t\<close> 64 bits, and the host is little-endian
  (so \<^verbatim>\<open>be32toh\<close> swaps the four bytes of a word).
\<close>

subsection \<open>Constants and types\<close>

text \<open>Line 8: \<^verbatim>\<open>#define BC_BUF_SIZE_BYTES (2 * 1024 * 1024)\<close>.\<close>

definition BC_BUF_SIZE_BYTES :: int where
  "BC_BUF_SIZE_BYTES = 2 * 1024 * 1024"

text \<open>
  The bitcell buffer \<^verbatim>\<open>uint32_t *bc_buf\<close> is a block of
  \<open>BC_BUF_SIZE_BYTES div 4\<close> words; the model indexes it by word number.
\<close>

type_synonym bc_buffer = "nat \<Rightarrow> 32 word"

text \<open>
  Lines 29-30: the signature shared by every strategy,
  \<^verbatim>\<open>uint32_t f(uint16_t write_bc_ticks, uint16_t *ff_samples, size_t ff_sample_count,
  uint32_t *bc_buf, uint32_t bc_buf_mask)\<close>. A strategy returns the bit count and leaves
  its bits in the buffer, which the model returns as the second component.
\<close>

type_synonym decoder =
  "16 word \<Rightarrow> 16 word list \<Rightarrow> nat \<Rightarrow> bc_buffer \<Rightarrow> 32 word \<Rightarrow> 32 word \<times> bc_buffer"

datatype input_failure =
  CannotOpen | SeekFailed | TellFailed | AllocFailed | ReadFailed | ShortRead

text \<open>
  Every \<^verbatim>\<open>return 1\<close> of \<^verbatim>\<open>main\<close> is one error value, named after the class the
  diagnostic belongs to. \<open>Usage\<close> is the \<^verbatim>\<open>exit(1)\<close> of \<^verbatim>\<open>usage\<close>;
  \<open>DivideByZero\<close> is the trap of the unsigned division on line 131 when the bit rate
  is zero.
\<close>

datatype error =
  Usage | InputError input_failure | DivideByZero | UnknownAlgorithm | BufferOverflow
  | OutputError

subsection \<open>The strategy table (lines 33-50)\<close>

datatype func =
  ff_v341 | ff_master | ff_master_greaseweazle_default_pll
  | ff_master_greaseweazle_fallback_pll | fdc9216 | nco_715k | nco_358k | nco_178k
  | nco_1440k_0p2 | nco_1440k_0p25 | nco_2160k_0p1 | nco_2160k_0p2 | nco_2160k_0p25
  | nco_2160k_0p5 | nco_2160k_1p0

text \<open>The table ends with the entry \<^verbatim>\<open>{NULL, NULL}\<close>: the end of the list.\<close>

definition ALGS :: "(string \<times> func) list" where
  "ALGS =
    [(''ff_v341'', ff_v341),
     (''ff_master'', ff_master),
     (''ff_master_greaseweazle_default_pll'', ff_master_greaseweazle_default_pll),
     (''ff_master_greaseweazle_fallback_pll'', ff_master_greaseweazle_fallback_pll),
     (''fdc9216'', fdc9216),
     (''nco_715k'', nco_715k),
     (''nco_358k'', nco_358k),
     (''nco_178k'', nco_178k),
     (''nco_1440k_0p2'', nco_1440k_0p2),
     (''nco_1440k_0p25'', nco_1440k_0p25),
     (''nco_2160k_0p1'', nco_2160k_0p1),
     (''nco_2160k_0p2'', nco_2160k_0p2),
     (''nco_2160k_0p25'', nco_2160k_0p25),
     (''nco_2160k_0p5'', nco_2160k_0p5),
     (''nco_2160k_1p0'', nco_2160k_1p0)]"

subsection \<open>The C library calls on strings\<close>

text \<open>
  A C string is the characters before its terminating NUL; a command-line argument holds
  no NUL, so \<^verbatim>\<open>strcmp(a, b) == 0\<close> is equality and
  \<^verbatim>\<open>strncmp(a, "nco[", 4) == 0\<close> compares the first four characters.
\<close>

definition strcmp_eq :: "string \<Rightarrow> string \<Rightarrow> bool" where
  "strcmp_eq a b = (a = b)"

definition strncmp_eq :: "string \<Rightarrow> string \<Rightarrow> nat \<Rightarrow> bool" where
  "strncmp_eq a b n = (take n a = take n b)"

definition isspace :: "char \<Rightarrow> bool" where
  "isspace c = (c \<in> set [CHR 0x20, CHR 0x09, CHR 0x0A, CHR 0x0B, CHR 0x0C, CHR 0x0D])"

definition isdigit :: "char \<Rightarrow> bool" where
  "isdigit c = (48 \<le> (of_char c :: nat) \<and> (of_char c :: nat) \<le> 57)"

fun scan_digits :: "int \<Rightarrow> string \<Rightarrow> int \<times> string" where
  "scan_digits acc [] = (acc, [])"
| "scan_digits acc (c # cs) =
     (if isdigit c then scan_digits (acc * 10 + (of_char c - 48)) cs else (acc, c # cs))"

text \<open>
  The common front of \<^verbatim>\<open>strtol\<close> and \<^verbatim>\<open>strtoul\<close> in base 10: white space, an
  optional sign, then decimal digits. The result is \<open>None\<close> when no digit follows (no
  conversion), else the sign, the magnitude and the text after the last digit.
\<close>

definition scan_number :: "string \<Rightarrow> (bool \<times> int \<times> string) option" where
  "scan_number nptr =
     (let s = dropWhile isspace nptr;
          neg = (case s of [] \<Rightarrow> False | c # _ \<Rightarrow> c = CHR ''-'');
          t = (case s of [] \<Rightarrow> [] | c # cs \<Rightarrow> if c = CHR ''-'' \<or> c = CHR ''+'' then cs else s)
      in case t of
           [] \<Rightarrow> None
         | c # _ \<Rightarrow> if isdigit c then (case scan_digits 0 t of (v, rest) \<Rightarrow> Some (neg, v, rest))
                    else None)"

text \<open>
  \<^verbatim>\<open>strtol(nptr, &endptr, 10)\<close>: the value, clamped to the range of \<^verbatim>\<open>long\<close>, and
  the end pointer; without a conversion the value is 0 and the end pointer is
  \<^verbatim>\<open>nptr\<close> itself.
\<close>

definition strtol :: "string \<Rightarrow> int \<times> string" where
  "strtol nptr =
     (case scan_number nptr of
        None \<Rightarrow> (0, nptr)
      | Some (neg, v, rest) \<Rightarrow>
          (max (- (2 ^ 63)) (min (2 ^ 63 - 1) (if neg then - v else v)), rest))"

text \<open>
  \<^verbatim>\<open>strtoul(nptr, NULL, 10)\<close>: a magnitude beyond \<^verbatim>\<open>ULONG_MAX\<close> gives
  \<^verbatim>\<open>ULONG_MAX\<close>, and a minus sign negates the value in unsigned arithmetic.
\<close>

definition strtoul :: "string \<Rightarrow> 64 word" where
  "strtoul nptr =
     (case scan_number nptr of
        None \<Rightarrow> 0
      | Some (neg, v, rest) \<Rightarrow>
          if 2 ^ 64 \<le> v then - 1 else if neg then - word_of_int v else word_of_int v)"

text \<open>The conversion of a \<^verbatim>\<open>long\<close> to \<^verbatim>\<open>int\<close> keeps the low 32 bits.\<close>

definition int_of_long :: "int \<Rightarrow> int" where
  "int_of_long v = sint (word_of_int v :: 32 word)"

subsection \<open>Strategy resolution (lines 134-157)\<close>

datatype strategy = Registered func | Nco_generic int int

text \<open>Lines 143-151: the linear search of the table.\<close>

fun find_alg :: "string \<Rightarrow> (string \<times> func) list \<Rightarrow> (string \<times> func) option" where
  "find_alg algorithm [] = None"
| "find_alg algorithm (alg # rest) =
     (if strcmp_eq algorithm (fst alg) then Some alg else find_alg algorithm rest)"

text \<open>
  On the \<^verbatim>\<open>nco[\<close> path the code parses two integers, the second one starting one
  character after the end of the first. When the first parse stops at the terminator of
  the argument, that character lies behind the argument: \<open>behind\<close> is what memory holds
  there.
\<close>

definition select_strategy :: "string \<Rightarrow> string \<Rightarrow> error + strategy" where
  "select_strategy algorithm behind =
     (if strncmp_eq algorithm ''nco['' 4 then
        (let p = drop 4 (algorithm @ [CHR 0x00] @ behind);
             (integral_long, p1) = strtol p;
             integral_div = int_of_long integral_long;
             (error_long, p2) = strtol (drop 1 p1);
             error_div = int_of_long error_long
         in Inr (Nco_generic integral_div error_div))
      else
        (case find_alg algorithm ALGS of
           None \<Rightarrow> Inl UnknownAlgorithm
         | Some alg \<Rightarrow> Inr (Registered (snd alg))))"

subsection \<open>The serializer's arithmetic (lines 171-173, 208, 221-234)\<close>

text \<open>
  Line 172, \<^verbatim>\<open>size_t bc_bytes = (bc_prod + 7) / 8\<close>: the sum is formed in
  \<^verbatim>\<open>uint32_t\<close> and widened afterwards. Line 173, \<^verbatim>\<open>bc_words = bc_bytes / 4\<close>.
\<close>

definition bc_bytes_of :: "32 word \<Rightarrow> 64 word" where
  "bc_bytes_of bc_prod = ucast ((bc_prod + 7) div 8)"

definition bc_words_of :: "32 word \<Rightarrow> 64 word" where
  "bc_words_of bc_prod = bc_bytes_of bc_prod div 4"

text \<open>Line 208.\<close>

definition track_data_length_bytes :: "32 word \<Rightarrow> 64 word" where
  "track_data_length_bytes bc_prod = bc_bytes_of bc_prod * 2"

text \<open>Lines 209-214.\<close>

definition track_list :: "32 word \<Rightarrow> 8 word list" where
  "track_list bc_prod =
     [0x02, 0x00,
      ucast (track_data_length_bytes bc_prod AND 0xFF),
      ucast (drop_bit 8 (track_data_length_bytes bc_prod) AND 0xFF)]"

text \<open>\<^verbatim>\<open>be32toh\<close> on a little-endian host.\<close>

definition be32toh :: "32 word \<Rightarrow> 32 word" where
  "be32toh w =
     push_bit 24 (w AND 0xFF) OR push_bit 8 (w AND 0xFF00)
     OR drop_bit 8 (w AND 0xFF0000) OR drop_bit 24 w"

text \<open>
  Lines 224-230: the loop over \<^verbatim>\<open>jj = 31, ..., 0\<close>. The array
  \<^verbatim>\<open>uint8_t bits_out[4]\<close> is not initialised, so its first contents are an argument.
  The assignment truncates the shifted value to eight bits.
\<close>

function pack_loop :: "int \<Rightarrow> 32 word \<Rightarrow> (nat \<Rightarrow> 8 word) \<Rightarrow> (nat \<Rightarrow> 8 word)" where
  "pack_loop jj bits_left_to_right bits_out =
     (if 0 \<le> jj then
        pack_loop (jj - 1) (drop_bit 1 bits_left_to_right)
          (bits_out (nat (jj div 8) :=
             push_bit 1 (bits_out (nat (jj div 8))) OR ucast (bits_left_to_right AND 1)))
      else bits_out)"
  by pat_completeness auto
termination
  by (relation "measure (\<lambda>(jj, _, _). nat (jj + 1))") auto

declare pack_loop.simps [simp del]

text \<open>Lines 221-230 for one buffer word; the four bytes that line 237 writes.\<close>

definition pack_word :: "(nat \<Rightarrow> 8 word) \<Rightarrow> 32 word \<Rightarrow> 8 word list" where
  "pack_word uninit w = map (pack_loop 31 (be32toh w) uninit) [0, 1, 2, 3]"

text \<open>Lines 232-234, for the loop counter \<^verbatim>\<open>ii\<close>.\<close>

definition hfe_offset :: "nat \<Rightarrow> nat" where
  "hfe_offset ii =
     (let byte_number = ii * 4;
          block_number = byte_number div 256
      in 0x400 + (block_number * 512) + (byte_number mod 256))"

subsection \<open>The output file\<close>

text \<open>
  The stream \<^verbatim>\<open>hfe_fd\<close>: the bytes of the file and the position of the next write.
  A write behind the end of the file fills the gap with zero bytes. The code does not
  test the results of \<^verbatim>\<open>fseek\<close>, \<^verbatim>\<open>fwrite\<close> and \<^verbatim>\<open>fclose\<close> on this
  stream; the model is of the runs in which they succeed.
\<close>

record hfe_stream =
  contents :: "8 word list"
  position :: nat

definition fseek_set :: "nat \<Rightarrow> hfe_stream \<Rightarrow> hfe_stream" where
  "fseek_set offset fd = fd\<lparr>position := offset\<rparr>"

definition fwrite :: "8 word list \<Rightarrow> hfe_stream \<Rightarrow> hfe_stream" where
  "fwrite bytes fd =
     (let padded = contents fd @ replicate (position fd - length (contents fd)) 0
      in \<lparr>contents = take (position fd) padded @ bytes
                        @ drop (position fd + length bytes) padded,
          position = position fd + length bytes\<rparr>)"

text \<open>Lines 183-204: the header; the bit rate is narrowed to \<^verbatim>\<open>uint8_t\<close>.\<close>

definition header :: "64 word \<Rightarrow> 8 word list" where
  "header hfe_bit_rate_kbps =
     map of_char ''HXCPICFE''
     @ [0x0, 0x1, 0x1, 0xFF, ucast hfe_bit_rate_kbps, 0x01, 0x00, 0x00, 0x07, 0, 0x01, 0x00]"

text \<open>
  Lines 219-238: the loop over the buffer words. \<open>uninit ii\<close> is what the array
  \<^verbatim>\<open>bits_out\<close> holds when iteration \<open>ii\<close> starts. The counter \<^verbatim>\<open>int ii\<close>
  stays below \<open>2 ^ 27\<close> (the bound of \<open>bc_words_of\<close>), so it is a natural number here.
\<close>

function track_data_loop ::
  "bc_buffer \<Rightarrow> (nat \<Rightarrow> nat \<Rightarrow> 8 word) \<Rightarrow> 64 word \<Rightarrow> nat \<Rightarrow> hfe_stream \<Rightarrow> hfe_stream" where
  "track_data_loop bc_buf uninit bc_words ii fd =
     (if ii < unat bc_words then
        track_data_loop bc_buf uninit bc_words (ii + 1)
          (fwrite (pack_word (uninit ii) (bc_buf ii)) (fseek_set (hfe_offset ii) fd))
      else fd)"
  by pat_completeness auto
termination
  by (relation "measure (\<lambda>(_, _, bc_words, ii, _). unat bc_words - ii)") auto

declare track_data_loop.simps [simp del]

subsection \<open>The environment of a run\<close>

text \<open>
  \<^item> \<open>argv\<close>: the command line, \<^verbatim>\<open>argc\<close> being its length;
  \<^item> \<open>behind_algorithm\<close>: the characters in memory behind the terminator of
    \<^verbatim>\<open>argv[4]\<close>;
  \<^item> \<open>fopen_rb\<close>: the bytes of the file at a path, \<open>None\<close> when it cannot be opened;
  \<^item> \<open>fseek_fails\<close>, \<open>ftell_fails\<close>, \<open>calloc_fails\<close>: the library calls of lines
    87, 92 and 102 failing;
  \<^item> \<open>fread_fault\<close>: \<open>Some k\<close> when the stream breaks after \<open>k\<close> samples;
  \<^item> \<open>malloc_block\<close>: what the block returned by \<^verbatim>\<open>malloc\<close> on line 129 holds
    (the code does not test the pointer; the model is of the runs in which the
    allocation succeeds);
  \<^item> \<open>strategy_impl\<close>, \<open>nco_generic\<close>: the strategies of the included headers;
  \<^item> \<open>fopen_w\<close>: whether the output path can be opened for writing;
  \<^item> \<open>bits_out_uninit\<close>: the first contents of \<^verbatim>\<open>bits_out\<close> in each iteration.

  The lines printed to the standard streams are not part of the model.
\<close>

record env =
  argv :: "string list"
  behind_algorithm :: string
  fopen_rb :: "string \<Rightarrow> 8 word list option"
  fseek_fails :: bool
  ftell_fails :: bool
  calloc_fails :: bool
  fread_fault :: "nat option"
  malloc_block :: bc_buffer
  strategy_impl :: "func \<Rightarrow> decoder"
  nco_generic ::
    "16 word \<Rightarrow> 16 word list \<Rightarrow> nat \<Rightarrow> bc_buffer \<Rightarrow> 32 word \<Rightarrow> int \<Rightarrow> int \<Rightarrow> 32 word \<times> bc_buffer"
  fopen_w :: "string \<Rightarrow> bool"
  bits_out_uninit :: "nat \<Rightarrow> nat \<Rightarrow> 8 word"

subsection \<open>Reading the samples (lines 79-123)\<close>

text \<open>\<^verbatim>\<open>fread\<close> stores each 16-bit sample from two bytes, the low one first.\<close>

fun samples_of_bytes :: "8 word list \<Rightarrow> 16 word list" where
  "samples_of_bytes (lo # hi # rest) = (ucast lo OR push_bit 8 (ucast hi)) # samples_of_bytes rest"
| "samples_of_bytes _ = []"

text \<open>Line 111, \<^verbatim>\<open>int res = fread(...)\<close>: the count narrowed to \<^verbatim>\<open>int\<close>.\<close>

definition int_of_size_t :: "nat \<Rightarrow> int" where
  "int_of_size_t n = sint (of_nat n :: 32 word)"

definition load_samples :: "env \<Rightarrow> string \<Rightarrow> error + 16 word list" where
  "load_samples env ff_sample_path =
     (case fopen_rb env ff_sample_path of
        None \<Rightarrow> Inl (InputError CannotOpen)
      | Some bytes \<Rightarrow>
          if fseek_fails env then Inl (InputError SeekFailed)
          else if ftell_fails env then Inl (InputError TellFailed)
          else
            (let ff_sample_size = length bytes;
                 ff_sample_count = ff_sample_size div 2
             in if calloc_fails env then Inl (InputError AllocFailed)
                else
                  (let got = (case fread_fault env of
                                None \<Rightarrow> ff_sample_count
                              | Some k \<Rightarrow> min k ff_sample_count);
                       res = int_of_size_t got
                   in if res < 0 then Inl (InputError ReadFailed)
                      else if res \<noteq> int ff_sample_count then Inl (InputError ShortRead)
                      else Inr (take ff_sample_count (samples_of_bytes bytes)))))"

subsection \<open>From the command line to the strategy call (lines 68-160)\<close>

text \<open>The arguments of the one strategy call of a run (line 140 or line 160).\<close>

record strategy_call =
  call_strategy :: strategy
  call_write_bc_ticks :: "16 word"
  call_ff_samples :: "16 word list"
  call_ff_sample_count :: nat
  call_bc_buf :: bc_buffer
  call_bc_bufmask :: "32 word"

definition prepare :: "env \<Rightarrow> error + strategy_call" where
  "prepare env =
     (if length (argv env) < 5 then Inl Usage
      else
        (let ff_sample_path = argv env ! 1;
             hfe_bit_rate_kbps = strtoul (argv env ! 3);
             algorithm = argv env ! 4
         in case load_samples env ff_sample_path of
              Inl e \<Rightarrow> Inl e
            | Inr ff_samples \<Rightarrow>
                if hfe_bit_rate_kbps = 0 then Inl DivideByZero
                else
                  (case select_strategy algorithm (behind_algorithm env) of
                     Inl e \<Rightarrow> Inl e
                   | Inr s \<Rightarrow>
                       Inr \<lparr>call_strategy = s,
                            call_write_bc_ticks = ucast (36000 div hfe_bit_rate_kbps),
                            call_ff_samples = ff_samples,
                            call_ff_sample_count = length ff_samples,
                            call_bc_buf = malloc_block env,
                            call_bc_bufmask = word_of_int ((BC_BUF_SIZE_BYTES div 4) - 1)\<rparr>)))"

definition invoke :: "env \<Rightarrow> strategy_call \<Rightarrow> 32 word \<times> bc_buffer" where
  "invoke env c =
     (case call_strategy c of
        Nco_generic integral_div error_div \<Rightarrow>
          nco_generic env (call_write_bc_ticks c) (call_ff_samples c) (call_ff_sample_count c)
            (call_bc_buf c) (call_bc_bufmask c) integral_div error_div
      | Registered f \<Rightarrow>
          strategy_impl env f (call_write_bc_ticks c) (call_ff_samples c)
            (call_ff_sample_count c) (call_bc_buf c) (call_bc_bufmask c))"

text \<open>The run up to line 162: the bit count and the buffer as the strategy leaves them.\<close>

definition decode :: "env \<Rightarrow> error + 32 word \<times> bc_buffer" where
  "decode env = (case prepare env of Inl e \<Rightarrow> Inl e | Inr c \<Rightarrow> Inr (invoke env c))"

subsection \<open>Writing the container (lines 171-240) and the whole run\<close>

definition write_hfe :: "env \<Rightarrow> string \<Rightarrow> 64 word \<Rightarrow> bc_buffer \<Rightarrow> 32 word \<Rightarrow> error + 8 word list" where
  "write_hfe env hfe_path hfe_bit_rate_kbps bc_buf bc_prod =
     (if \<not> fopen_w env hfe_path then Inl OutputError
      else
        (let fd0 = \<lparr>contents = [], position = 0\<rparr>;
             fd1 = fwrite (header hfe_bit_rate_kbps) fd0;
             fd2 = fwrite (track_list bc_prod) (fseek_set 0x200 fd1);
             fd3 = track_data_loop bc_buf (bits_out_uninit env) (bc_words_of bc_prod) 0 fd2
         in Inr (contents fd3)))"

text \<open>
  Line 165, \<^verbatim>\<open>if (bc_prod / 4 >= BC_BUF_SIZE_BYTES)\<close>, compares in \<^verbatim>\<open>uint32_t\<close>.
  The result of a run is the error of its \<^verbatim>\<open>return 1\<close>, or the bytes of the file
  it has written.
\<close>

definition main :: "env \<Rightarrow> error + 8 word list" where
  "main env =
     (case decode env of
        Inl e \<Rightarrow> Inl e
      | Inr (bc_prod, bc_buf) \<Rightarrow>
          if word_of_int BC_BUF_SIZE_BYTES \<le> bc_prod div 4 then Inl BufferOverflow
          else write_hfe env (argv env ! 2) (strtoul (argv env ! 3)) bc_buf bc_prod)"

text \<open>What a run leaves behind: its error, and the fields of the file it wrote.\<close>

definition run_error :: "env \<Rightarrow> error option" where
  "run_error env = (case main env of Inl e \<Rightarrow> Some e | Inr _ \<Rightarrow> None)"

text \<open>
  The track length of the descriptor at offset 0x200: the 16-bit little-endian number in
  its third and fourth byte.
\<close>

definition track_length_field :: "8 word list \<Rightarrow> nat" where
  "track_length_field f = unat (f ! 0x202) + 256 * unat (f ! 0x203)"

definition declared_track_length :: "env \<Rightarrow> nat option" where
  "declared_track_length env =
     (case main env of Inl _ \<Rightarrow> None | Inr f \<Rightarrow> Some (track_length_field f))"

subsection \<open>A run with a stub strategy\<close>

text \<open>
  A strategy that reports \<open>n\<close> bits and leaves the buffer as it found it, and a run of
  \<^verbatim>\<open>flashfloppy_to_hfe in.ff out.hfe 250 <algorithm>\<close> in which every strategy is
  that stub, the input file holds \<open>file_bytes\<close> and no library call fails.
\<close>

definition stub_decoder :: "32 word \<Rightarrow> decoder" where
  "stub_decoder n write_bc_ticks ff_samples ff_sample_count bc_buf bc_buf_mask = (n, bc_buf)"

definition stub_env :: "8 word list \<Rightarrow> string \<Rightarrow> 32 word \<Rightarrow> env" where
  "stub_env file_bytes algorithm n =
     \<lparr>argv = [''flashfloppy_to_hfe'', ''in.ff'', ''out.hfe'', ''250'', algorithm],
      behind_algorithm = [],
      fopen_rb = (\<lambda>path. if path = ''in.ff'' then Some file_bytes else None),
      fseek_fails = False,
      ftell_fails = False,
      calloc_fails = False,
      fread_fault = None,
      malloc_block = (\<lambda>_. 0xA5A5A5A5),
      strategy_impl = (\<lambda>_. stub_decoder n),
      nco_generic = (\<lambda>t s c b m integral_div error_div. stub_decoder n t s c b m),
      fopen_w = (\<lambda>path. path = ''out.hfe''),
      bits_out_uninit = (\<lambda>_ _. 0x5A)\<rparr>"

text \<open>What the strategy of a run is handed: word \<open>i\<close> of the buffer, and the mask.\<close>

definition handed_word :: "env \<Rightarrow> nat \<Rightarrow> 32 word option" where
  "handed_word env i = (case prepare env of Inl _ \<Rightarrow> None | Inr c \<Rightarrow> Some (call_bc_buf c i))"

definition handed_mask :: "env \<Rightarrow> 32 word option" where
  "handed_mask env = (case prepare env of Inl _ \<Rightarrow> None | Inr c \<Rightarrow> Some (call_bc_bufmask c))"

text \<open>The length of the file a run writes.\<close>

definition written_length :: "env \<Rightarrow> nat option" where
  "written_length env = (case main env of Inl _ \<Rightarrow> None | Inr f \<Rightarrow> Some (length f))"

text \<open>The \<open>n\<close> bytes from \<open>offset\<close> on in the file a run writes.\<close>

definition written_bytes :: "env \<Rightarrow> nat \<Rightarrow> nat \<Rightarrow> 8 word list option" where
  "written_bytes env offset n =
     (case main env of Inl _ \<Rightarrow> None | Inr f \<Rightarrow> Some (take n (drop offset f)))"

subsection \<open>The loop of lines 224-230 on one byte\<close>

text \<open>
  The iterations that fill \<^verbatim>\<open>bits_out[k]\<close> read the bits \<open>8 * (3 - k)\<close> to
  \<open>8 * (3 - k) + 7\<close> of the word. \<open>lane_word k b\<close> is the word that holds the byte \<open>b\<close>
  there and zero elsewhere, and \<open>byte_through_loop uninit k b\<close> is the byte that the loop
  makes of \<open>b\<close> in \<^verbatim>\<open>bits_out[k]\<close>.
\<close>

definition lane_word :: "nat \<Rightarrow> 8 word \<Rightarrow> 32 word" where
  "lane_word k b = push_bit (8 * (3 - k)) (ucast b)"

definition byte_through_loop :: "(nat \<Rightarrow> 8 word) \<Rightarrow> nat \<Rightarrow> 8 word \<Rightarrow> 8 word" where
  "byte_through_loop uninit k b = pack_loop 31 (lane_word k b) uninit k"

section \<open>Supporting lemmas\<close>

subsection \<open>The bit-packing loop\<close>

lemma bit_shift_in:
  fixes x :: "8 word" and bits :: "32 word"
  shows "bit (push_bit 1 x OR ucast (bits AND 1)) n \<longleftrightarrow>
         (if n = 0 then bit bits 0 else n < 8 \<and> bit x (n - 1))"
  unfolding bit_or_iff bit_push_bit_iff bit_ucast_iff bit_and_iff bit_1_iff
  by (cases n) auto

text \<open>
  What the loop started at \<open>jj\<close> leaves in bit \<open>i\<close> of \<open>bits_out[k]\<close>: the bit of the
  word consumed in the iteration with counter \<open>8 * k + i\<close> when the loop still reaches that
  iteration, else an old bit of the byte, moved up by the number of iterations on byte
  \<open>k\<close>.
\<close>

lemma pack_loop_bit:
  "i < 8 \<Longrightarrow> - 1 \<le> jj \<Longrightarrow>
   bit (pack_loop jj bits out k) i \<longleftrightarrow>
     (if 8 * int k + int i \<le> jj then bit bits (nat (jj - 8 * int k - int i))
      else bit (out k) (i - nat (jj + 1 - 8 * int k)))"
proof (induction jj bits out rule: pack_loop.induct)
  case (1 jj bits out)
  show ?case
  proof (cases "0 \<le> jj")
    case False
    with "1.prems" have "jj = - 1" by simp
    then show ?thesis using "1.prems" by (simp add: pack_loop.simps)
  next
    case True
    define q where "q = nat (jj div 8)"
    define b where "b = push_bit 1 (out q) OR ucast (bits AND 1)"
    have bit_b: "bit b n \<longleftrightarrow> (if n = 0 then bit bits 0 else n < 8 \<and> bit (out q) (n - 1))"
      for n unfolding b_def by (rule bit_shift_in)
    have "pack_loop jj bits out =
        (if 0 \<le> jj then pack_loop (jj - 1) (drop_bit 1 bits) (out (q := b)) else out)"
      unfolding q_def b_def by (rule pack_loop.simps)
    with True have step:
      "pack_loop jj bits out = pack_loop (jj - 1) (drop_bit 1 bits) (out (q := b))"
      by (simp only: if_True)
    from True have "- 1 \<le> jj - 1" by simp
    note IH = "1.IH" [OF True "1.prems"(1) this, folded q_def, folded b_def]
    from True have "0 \<le> jj div 8" by simp
    then have "int q = jj div 8" unfolding q_def by simp
    then have q: "8 * int q \<le> jj" "jj < 8 * int q + 8"
      by presburger+
    consider (below) "8 * int k + int i \<le> jj - 1" | (at) "8 * int k + int i = jj"
      | (above) "jj < 8 * int k + int i" by linarith
    then show ?thesis
    proof cases
      case below
      then have "Suc (nat (jj - 1 - 8 * int k - int i)) = nat (jj - 8 * int k - int i)"
        by simp
      with below show ?thesis
        unfolding step IH by (simp add: bit_drop_bit_eq)
    next
      case at
      with q "1.prems"(1) have "q = k" by linarith
      with at show ?thesis
        unfolding step IH by (simp add: bit_b)
    next
      case above
      show ?thesis
      proof (cases "q = k")
        case True
        with q above have "nat (jj - 8 * int k) < i"
          "nat (jj + 1 - 8 * int k) = Suc (nat (jj - 8 * int k))"
          by linarith+
        moreover from "1.prems"(1) have "i - nat (jj - 8 * int k) < 8" by simp
        ultimately show ?thesis using True above "1.prems"(1)
          unfolding step IH by (simp add: bit_b)
      next
        case False
        with q above "1.prems"(1) have "jj < 8 * int k" by linarith
        with False above show ?thesis
          unfolding step IH by simp
      qed
    qed
  qed
qed

lemma pack_loop_31_bit:
  "i < 8 \<Longrightarrow> k < 4 \<Longrightarrow> bit (pack_loop 31 bits out k) i \<longleftrightarrow> bit bits (31 - 8 * k - i)"
  by (simp add: pack_loop_bit nat_diff_distrib nat_mult_distrib)

text \<open>The four bytes written do not depend on what \<^verbatim>\<open>bits_out\<close> held before.\<close>

lemma pack_loop_31_uninit: "k < 4 \<Longrightarrow> pack_loop 31 bits out k = pack_loop 31 bits out' k"
  by (rule bit_word_eqI) (simp add: pack_loop_31_bit)

lemma pack_word_uninit: "pack_word uninit w = pack_word uninit' w"
  unfolding pack_word_def
  by (simp add: pack_loop_31_uninit [of _ _ uninit uninit'])

lemma length_pack_word: "length (pack_word u w) = 4"
  by (simp add: pack_word_def)

subsection \<open>Writes to the output file\<close>

lemma length_fwrite:
  "length (contents (fwrite bytes fd)) =
     max (length (contents fd)) (position fd + length bytes)"
  by (auto simp add: fwrite_def Let_def)

lemma nth_fwrite_below:
  "p < position fd \<Longrightarrow> p < length (contents fd) \<Longrightarrow>
   contents (fwrite bytes fd) ! p = contents fd ! p"
  by (simp add: fwrite_def Let_def nth_append)

lemma nth_fwrite_written:
  assumes "k < length bytes"
  shows "contents (fwrite bytes fd) ! (position fd + k) = bytes ! k"
proof -
  define padded where
    "padded = contents fd @ replicate (position fd - length (contents fd)) 0"
  have "length (take (position fd) padded) = position fd"
    unfolding padded_def by simp
  then have "(take (position fd) padded @ bytes @ drop (position fd + length bytes) padded)
      ! (position fd + k) = bytes ! k"
    using assms by (simp add: nth_append)
  then show ?thesis
    unfolding fwrite_def Let_def padded_def by simp
qed

subsection \<open>The storage offsets\<close>

lemma hfe_offset_eq: "hfe_offset ii = 0x400 + 512 * (ii div 64) + 4 * (ii mod 64)"
proof -
  have "ii * 4 div 256 = ii div 64" by simp
  moreover have "ii * 4 mod 256 = 4 * (ii mod 64)"
    using mult_mod_right [of 4 ii 64] by (simp add: mult.commute)
  ultimately show ?thesis
    unfolding hfe_offset_def Let_def by simp
qed

lemma hfe_offset_Suc: "hfe_offset ii + 4 \<le> hfe_offset (Suc ii)"
proof (cases "Suc (ii mod 64) < 64")
  case True
  then have "Suc ii div 64 = ii div 64" "Suc ii mod 64 = Suc (ii mod 64)"
    by (simp_all add: div_Suc mod_Suc)
  then show ?thesis unfolding hfe_offset_eq by simp
next
  case False
  then have "Suc ii div 64 = Suc (ii div 64)" "Suc ii mod 64 = 0" "ii mod 64 = 63"
    by (simp_all add: div_Suc mod_Suc)
  then show ?thesis unfolding hfe_offset_eq by simp
qed

subsection \<open>The loop over the buffer words\<close>

text \<open>The iterations from \<open>ii\<close> on leave every byte below \<open>hfe_offset ii\<close> alone.\<close>

lemma track_data_loop_below:
  "p < hfe_offset ii \<Longrightarrow> p < length (contents fd) \<Longrightarrow>
   p < length (contents (track_data_loop bc_buf uninit bc_words ii fd)) \<and>
   contents (track_data_loop bc_buf uninit bc_words ii fd) ! p = contents fd ! p"
proof (induction bc_buf uninit bc_words ii fd rule: track_data_loop.induct)
  case (1 bc_buf uninit bc_words ii fd)
  show ?case
  proof (cases "ii < unat bc_words")
    case False
    with "1.prems" show ?thesis by (simp add: track_data_loop.simps)
  next
    case True
    define fd' where
      "fd' = fwrite (pack_word (uninit ii) (bc_buf ii)) (fseek_set (hfe_offset ii) fd)"
    have step: "track_data_loop bc_buf uninit bc_words ii fd =
        track_data_loop bc_buf uninit bc_words (ii + 1) fd'"
      using True unfolding fd'_def by (subst track_data_loop.simps) simp
    have len: "p < length (contents fd')"
      using "1.prems" unfolding fd'_def by (simp add: length_fwrite fseek_set_def)
    have same: "contents fd' ! p = contents fd ! p"
      using "1.prems" unfolding fd'_def by (simp add: nth_fwrite_below fseek_set_def)
    have "p < hfe_offset (ii + 1)"
      using "1.prems"(1) hfe_offset_Suc [of ii] by simp
    from "1.IH" [OF True, folded fd'_def, OF this len] same show ?thesis
      unfolding step by simp
  qed
qed

text \<open>Word \<open>i\<close> of the buffer ends up in the four bytes from \<open>hfe_offset i\<close> on.\<close>

lemma track_data_loop_placed:
  "ii \<le> i \<Longrightarrow> i < unat bc_words \<Longrightarrow> k < 4 \<Longrightarrow>
   hfe_offset i + k < length (contents (track_data_loop bc_buf uninit bc_words ii fd)) \<and>
   contents (track_data_loop bc_buf uninit bc_words ii fd) ! (hfe_offset i + k)
     = pack_word (uninit i) (bc_buf i) ! k"
proof (induction bc_buf uninit bc_words ii fd rule: track_data_loop.induct)
  case (1 bc_buf uninit bc_words ii fd)
  from "1.prems" have True: "ii < unat bc_words" by simp
  define fd' where
    "fd' = fwrite (pack_word (uninit ii) (bc_buf ii)) (fseek_set (hfe_offset ii) fd)"
  have step: "track_data_loop bc_buf uninit bc_words ii fd =
      track_data_loop bc_buf uninit bc_words (ii + 1) fd'"
    using True unfolding fd'_def by (subst track_data_loop.simps) simp
  show ?case
  proof (cases "ii = i")
    case False
    with "1.prems" have "ii + 1 \<le> i" by simp
    from "1.IH" [OF True, folded fd'_def, OF this "1.prems"(2,3)] show ?thesis
      unfolding step .
  next
    case eq: True
    have pos: "position (fseek_set (hfe_offset i) fd) = hfe_offset i"
      by (simp add: fseek_set_def)
    have len: "hfe_offset i + k < length (contents fd')"
      using "1.prems"(3) unfolding fd'_def eq
      by (simp add: length_fwrite pos length_pack_word)
    have here: "contents fd' ! (hfe_offset i + k) = pack_word (uninit i) (bc_buf i) ! k"
      using "1.prems"(3) nth_fwrite_written [of k "pack_word (uninit i) (bc_buf i)"
          "fseek_set (hfe_offset i) fd"]
      unfolding fd'_def eq by (simp add: pos length_pack_word)
    have "hfe_offset i + k < hfe_offset (i + 1)"
      using "1.prems"(3) hfe_offset_Suc [of i] by simp
    from track_data_loop_below [OF this len, of bc_buf uninit bc_words] here show ?thesis
      using step eq by simp
  qed
qed

subsection \<open>Sizes and the track descriptor\<close>

lemma unat_bc_bytes_of:
  "unat (bc_bytes_of bc_prod) = ((unat bc_prod + 7) mod 2 ^ 32) div 8"
  by (simp add: bc_bytes_of_def unsigned_ucast_eq unat_div unat_word_ariths take_bit_eq_mod)

lemma unat_bc_bytes_of_bound: "unat (bc_bytes_of bc_prod) < 2 ^ 29"
  unfolding unat_bc_bytes_of by simp

lemma unat_bc_words_of:
  "unat (bc_words_of bc_prod) = unat (bc_bytes_of bc_prod) div 4"
  by (simp add: bc_words_of_def unat_div)

lemma unat_bc_words_of_bound: "unat (bc_words_of bc_prod) < 2 ^ 27"
  using unat_bc_bytes_of_bound [of bc_prod] unfolding unat_bc_words_of by simp

text \<open>After the check of line 165 the loop reads words of the buffer only.\<close>

lemma accepted_words_in_buffer:
  assumes "unat bc_prod < 8388608"
  shows "uint (bc_words_of bc_prod) < BC_BUF_SIZE_BYTES div 4"
proof -
  from assms have "unat (bc_bytes_of bc_prod) = (unat bc_prod + 7) div 8"
    by (simp add: unat_bc_bytes_of)
  with assms have "unat (bc_words_of bc_prod) \<le> 262144"
    unfolding unat_bc_words_of by simp
  moreover have "int (unat (bc_words_of bc_prod)) = uint (bc_words_of bc_prod)"
    by simp
  ultimately have "uint (bc_words_of bc_prod) \<le> 262144"
    by linarith
  then show ?thesis by (simp add: BC_BUF_SIZE_BYTES_def)
qed

lemma unat_track_data_length_bytes:
  "unat (track_data_length_bytes bc_prod) = 2 * unat (bc_bytes_of bc_prod)"
  using unat_bc_bytes_of_bound [of bc_prod]
  by (simp add: track_data_length_bytes_def unat_word_ariths)

lemma low_byte: "unat (ucast (w AND 0xFF :: 64 word) :: 8 word) = unat w mod 256"
proof -
  have "w AND 0xFF = take_bit 8 w"
    by (simp add: take_bit_eq_mask mask_eq_exp_minus_1)
  then show ?thesis
    by (simp add: unsigned_ucast_eq take_bit_eq_mod unat_mod)
qed

lemma unat_drop_bit_8: "unat (drop_bit 8 w) = unat w div 256" for w :: "64 word"
  by (simp add: unat_drop_bit_eq drop_bit_eq_div unat_div)

lemma track_list_field:
  "unat (track_list bc_prod ! 2) + 256 * unat (track_list bc_prod ! 3)
     = unat (track_data_length_bytes bc_prod) mod 65536"
proof -
  have "n mod 256 + 256 * (n div 256 mod 256) = n mod 65536" for n :: nat
    using mod_mult2_eq [of n 256 256] by simp
  then show ?thesis
    by (simp add: track_list_def low_byte unat_drop_bit_8)
qed

lemma length_header: "length (header r) = 20"
  by (simp add: header_def)

lemma length_track_list: "length (track_list bc_prod) = 4"
  by (simp add: track_list_def)

lemma contents_descriptor:
  "contents (fwrite (track_list bc_prod)
      (fseek_set 0x200 (fwrite (header r) \<lparr>contents = [], position = 0\<rparr>)))
   = header r @ replicate 492 0 @ track_list bc_prod"
  by (simp add: fwrite_def fseek_set_def Let_def length_header)

subsection \<open>The file of a run\<close>

lemma write_hfe_Inr:
  assumes "write_hfe env hfe_path r bc_buf bc_prod = Inr f"
  shows "f = contents (track_data_loop bc_buf (bits_out_uninit env) (bc_words_of bc_prod) 0
            (fwrite (track_list bc_prod)
               (fseek_set 0x200 (fwrite (header r) \<lparr>contents = [], position = 0\<rparr>))))"
  using assms by (simp add: write_hfe_def Let_def split: if_splits)

lemma write_hfe_descriptor:
  assumes "write_hfe env hfe_path r bc_buf bc_prod = Inr f" and "k < 4"
  shows "0x200 + k < length f \<and> f ! (0x200 + k) = track_list bc_prod ! k"
proof -
  let ?fd = "fwrite (track_list bc_prod)
      (fseek_set 0x200 (fwrite (header r) \<lparr>contents = [], position = 0\<rparr>))"
  have c: "contents ?fd = header r @ replicate 492 0 @ track_list bc_prod"
    by (rule contents_descriptor)
  have len: "0x200 + k < length (contents ?fd)"
    using \<open>k < 4\<close> unfolding c by (simp add: length_header length_track_list)
  have "0x200 + k < hfe_offset 0"
    using \<open>k < 4\<close> by (simp add: hfe_offset_def)
  from track_data_loop_below [OF this len, of bc_buf "bits_out_uninit env" "bc_words_of bc_prod"]
  have "0x200 + k < length f \<and> f ! (0x200 + k) = contents ?fd ! (0x200 + k)"
    unfolding write_hfe_Inr [OF assms(1)] .
  moreover have "contents ?fd ! (0x200 + k) = track_list bc_prod ! k"
    using \<open>k < 4\<close> unfolding c by (simp add: nth_append length_header)
  ultimately show ?thesis by simp
qed

lemma write_hfe_track_length:
  assumes "write_hfe env hfe_path r bc_buf bc_prod = Inr f"
  shows "track_length_field f = unat (track_data_length_bytes bc_prod) mod 65536"
proof -
  from write_hfe_descriptor [OF assms, of 2] write_hfe_descriptor [OF assms, of 3]
  have "f ! 0x202 = track_list bc_prod ! 2" "f ! 0x203 = track_list bc_prod ! 3"
    by simp_all
  then show ?thesis
    unfolding track_length_field_def using track_list_field [of bc_prod] by simp
qed

lemma write_hfe_not_overflow: "write_hfe env hfe_path r bc_buf bc_prod \<noteq> Inl BufferOverflow"
  by (simp add: write_hfe_def Let_def)

lemma overflow_check_iff:
  "(word_of_int BC_BUF_SIZE_BYTES :: 32 word) \<le> bc_prod div 4 \<longleftrightarrow> 8388608 \<le> unat bc_prod"
proof -
  have "(word_of_int BC_BUF_SIZE_BYTES :: 32 word) = 2097152"
    by (simp add: BC_BUF_SIZE_BYTES_def)
  moreover have "2097152 \<le> unat bc_prod div 4 \<longleftrightarrow> 8388608 \<le> unat bc_prod"
    by linarith
  ultimately show ?thesis
    by (simp add: word_le_nat_alt unat_div)
qed

lemma main_after_decode:
  "decode env = Inr (bc_prod, bc_buf) \<Longrightarrow>
   main env =
     (if 8388608 \<le> unat bc_prod then Inl BufferOverflow
      else write_hfe env (argv env ! 2) (strtoul (argv env ! 3)) bc_buf bc_prod)"
  by (simp add: main_def overflow_check_iff)

subsection \<open>Reading the samples\<close>

lemma length_samples_of_bytes: "length (samples_of_bytes bs) = length bs div 2"
  by (induction bs rule: samples_of_bytes.induct) simp_all

lemma samples_of_bytes_odd:
  "even (length bs) \<Longrightarrow> samples_of_bytes (bs @ [x]) = samples_of_bytes bs"
  by (induction bs rule: samples_of_bytes.induct) simp_all

lemma int_of_size_t_small: "n < 2 ^ 31 \<Longrightarrow> int_of_size_t n = int n"
  unfolding int_of_size_t_def
  by (simp add: signed_of_nat signed_take_bit_int_eq_self)

lemma load_samples_ok:
  assumes "fopen_rb env path = Some bytes" "\<not> fseek_fails env" "\<not> ftell_fails env"
    "\<not> calloc_fails env" "fread_fault env = None" "length bytes < 2 ^ 32"
  shows "load_samples env path = Inr (samples_of_bytes bytes)"
proof -
  from assms(6) have "length bytes div 2 < 2 ^ 31" by simp
  then have "int_of_size_t (length bytes div 2) = int (length bytes div 2)"
    by (rule int_of_size_t_small)
  with assms show ?thesis
    by (simp add: load_samples_def Let_def length_samples_of_bytes)
qed

subsection \<open>Strategy resolution\<close>

lemma find_alg_None_iff: "find_alg a xs = None \<longleftrightarrow> a \<notin> set (map fst xs)"
  by (induction xs) (auto simp add: strcmp_eq_def)

lemma strncmp_eq_prefix: "strncmp_eq a ''nco['' 4 \<longleftrightarrow> prefix ''nco['' a"
proof
  assume "strncmp_eq a ''nco['' 4"
  then have "take 4 a = ''nco[''" by (simp add: strncmp_eq_def)
  then have "a = ''nco['' @ drop 4 a" by (metis append_take_drop_id)
  then show "prefix ''nco['' a" by (metis prefixI)
next
  assume "prefix ''nco['' a"
  then obtain rest where "a = ''nco['' @ rest" by (auto simp add: prefix_def)
  then show "strncmp_eq a ''nco['' 4" by (simp add: strncmp_eq_def)
qed

lemma select_strategy_unknown_iff:
  "select_strategy a b = Inl UnknownAlgorithm \<longleftrightarrow>
     \<not> prefix ''nco['' a \<and> a \<notin> set (map fst ALGS)"
  unfolding select_strategy_def strncmp_eq_prefix
  using find_alg_None_iff [of a ALGS]
  by (auto simp add: Let_def split: prod.splits option.splits)

lemma select_strategy_nco_4_8: "select_strategy ''nco[4,8]'' b = Inr (Nco_generic 4 8)"
  by (simp add: select_strategy_def strncmp_eq_def strtol_def scan_number_def isspace_def
      isdigit_def int_of_long_def)

lemma select_strategy_not_input: "select_strategy a b \<noteq> Inl (InputError x)"
  by (simp add: select_strategy_def Let_def split: prod.splits option.splits)

lemma prepare_unknown:
  "prepare env = Inl UnknownAlgorithm \<Longrightarrow>
   select_strategy (argv env ! 4) (behind_algorithm env) = Inl UnknownAlgorithm"
  by (auto simp add: prepare_def Let_def load_samples_def
      split: if_splits sum.splits option.splits)

lemma main_unknown:
  "main env = Inl UnknownAlgorithm \<Longrightarrow> prepare env = Inl UnknownAlgorithm"
  by (auto simp add: main_def decode_def write_hfe_def Let_def
      split: if_splits sum.splits prod.splits)

lemma unknown_aborts:
  "5 \<le> length (argv env) \<Longrightarrow> load_samples env (argv env ! 1) = Inr s \<Longrightarrow>
   strtoul (argv env ! 3) \<noteq> 0 \<Longrightarrow>
   select_strategy (argv env ! 4) (behind_algorithm env) = Inl UnknownAlgorithm \<Longrightarrow>
   prepare env = Inl UnknownAlgorithm \<and> main env = Inl UnknownAlgorithm"
  by (simp add: main_def decode_def prepare_def Let_def)

lemma main_InputError:
  assumes "main env = Inl (InputError x)"
  shows "load_samples env (argv env ! 1) = Inl (InputError x)"
  using assms select_strategy_not_input [of "argv env ! 4" "behind_algorithm env" x]
  by (auto simp add: main_def decode_def prepare_def write_hfe_def Let_def
      split: sum.splits if_splits prod.splits)

subsection \<open>The loop on one byte reverses its bits\<close>

lemma bit_lane_word:
  assumes "k < 4" "i < 8"
  shows "bit (lane_word k b) (31 - 8 * k - i) \<longleftrightarrow> bit b (7 - i)"
proof -
  define m j where "m = 8 * (3 - k)" and "j = 7 - i"
  from assms have "31 - 8 * k - i = m + j" "m + j < 32" "j < 8"
    unfolding m_def j_def by simp_all
  then show ?thesis
    unfolding lane_word_def bit_push_bit_iff bit_ucast_iff m_def [symmetric] j_def [symmetric]
    by simp
qed

lemma bit_byte_through_loop:
  "k < 4 \<Longrightarrow> i < 8 \<Longrightarrow> bit (byte_through_loop u k b) i \<longleftrightarrow> bit b (7 - i)"
  unfolding byte_through_loop_def using bit_lane_word [of k i b]
  by (simp add: pack_loop_31_bit)

lemma byte_through_loop_twice:
  assumes "k < 4"
  shows "byte_through_loop u' k (byte_through_loop u k b) = b"
proof (rule bit_word_eqI)
  fix i assume "i < LENGTH(8)"
  then have i: "i < 8" "7 - i < 8" "7 - (7 - i) = i" by simp_all
  show "bit (byte_through_loop u' k (byte_through_loop u k b)) i \<longleftrightarrow> bit b i"
    using assms i by (simp add: bit_byte_through_loop)
qed

text \<open>
  On a whole word the loop is \<open>byte_through_loop\<close> on each of its four bytes: byte \<open>k\<close>
  of the output is made of the bits \<open>8 * (3 - k)\<close> to \<open>8 * (3 - k) + 7\<close> of the word.
\<close>

lemma pack_loop_31_lane:
  assumes "k < 4"
  shows "pack_loop 31 w u k = byte_through_loop u' k (ucast (drop_bit (8 * (3 - k)) w))"
proof (rule bit_word_eqI)
  fix i assume "i < LENGTH(8)"
  then have i: "i < 8" "7 - i < 8" by simp_all
  have "8 * (3 - k) + (7 - i) = 31 - 8 * k - i"
    using assms i by simp
  then show "bit (pack_loop 31 w u k) i \<longleftrightarrow>
      bit (byte_through_loop u' k (ucast (drop_bit (8 * (3 - k)) w))) i"
    using assms i by (simp add: bit_byte_through_loop pack_loop_31_bit bit_ucast_iff bit_drop_bit_eq)
qed

subsection \<open>The runs with the stub strategy\<close>

lemma strtoul_250: "strtoul ''250'' = 250"
  by (simp add: strtoul_def scan_number_def isspace_def isdigit_def)

lemma select_ff_master: "select_strategy ''ff_master'' behind = Inr (Registered ff_master)"
  by (simp add: select_strategy_def strncmp_eq_def ALGS_def strcmp_eq_def)

lemma stub_env_fields:
  "argv (stub_env file_bytes algorithm n)
     = [''flashfloppy_to_hfe'', ''in.ff'', ''out.hfe'', ''250'', algorithm]"
  "behind_algorithm (stub_env file_bytes algorithm n) = []"
  "fopen_rb (stub_env file_bytes algorithm n) ''in.ff'' = Some file_bytes"
  "\<not> fseek_fails (stub_env file_bytes algorithm n)"
  "\<not> ftell_fails (stub_env file_bytes algorithm n)"
  "\<not> calloc_fails (stub_env file_bytes algorithm n)"
  "fread_fault (stub_env file_bytes algorithm n) = None"
  "malloc_block (stub_env file_bytes algorithm n) i = 0xA5A5A5A5"
  "strategy_impl (stub_env file_bytes algorithm n) f = stub_decoder n"
  "fopen_w (stub_env file_bytes algorithm n) ''out.hfe''"
  "bits_out_uninit (stub_env file_bytes algorithm n) ii k = 0x5A"
  by (simp_all add: stub_env_def)

lemma load_samples_stub_env:
  "length file_bytes < 2 ^ 32 \<Longrightarrow>
   load_samples (stub_env file_bytes algorithm n) ''in.ff'' = Inr (samples_of_bytes file_bytes)"
  by (rule load_samples_ok) (simp_all add: stub_env_fields)

lemma prepare_stub_env:
  "length file_bytes < 2 ^ 32 \<Longrightarrow>
   prepare (stub_env file_bytes ''ff_master'' n) =
     Inr \<lparr>call_strategy = Registered ff_master,
          call_write_bc_ticks = 144,
          call_ff_samples = samples_of_bytes file_bytes,
          call_ff_sample_count = length file_bytes div 2,
          call_bc_buf = malloc_block (stub_env file_bytes ''ff_master'' n),
          call_bc_bufmask = 524287\<rparr>"
  by (simp add: prepare_def Let_def stub_env_fields(1,2) load_samples_stub_env strtoul_250
      select_ff_master length_samples_of_bytes BC_BUF_SIZE_BYTES_def)

lemma decode_stub_env:
  "length file_bytes < 2 ^ 32 \<Longrightarrow>
   decode (stub_env file_bytes ''ff_master'' n) =
     Inr (n, malloc_block (stub_env file_bytes ''ff_master'' n))"
  by (simp add: decode_def prepare_stub_env invoke_def stub_env_fields(9) stub_decoder_def)

lemma main_stub_env:
  "length file_bytes < 2 ^ 32 \<Longrightarrow>
   main (stub_env file_bytes ''ff_master'' n) =
     (if 8388608 \<le> unat n then Inl BufferOverflow
      else write_hfe (stub_env file_bytes ''ff_master'' n) ''out.hfe'' 250
             (malloc_block (stub_env file_bytes ''ff_master'' n)) n)"
  by (simp add: main_after_decode [OF decode_stub_env] stub_env_fields(1) strtoul_250)

lemma run_error_stub_env:
  "length file_bytes < 2 ^ 32 \<Longrightarrow>
   run_error (stub_env file_bytes ''ff_master'' n) =
     (if 8388608 \<le> unat n then Some BufferOverflow else None)"
  by (simp add: run_error_def main_stub_env write_hfe_def Let_def stub_env_fields(10))

subsection \<open>The fields of the written file\<close>

lemma declared_track_length_eq:
  assumes "decode env = Inr (bc_prod, bc_buf)" "run_error env = None"
  shows "declared_track_length env = Some (unat (track_data_length_bytes bc_prod) mod 65536)"
    and "unat bc_prod < 8388608"
proof -
  from assms(2) obtain f where f: "main env = Inr f"
    by (auto simp add: run_error_def split: sum.splits)
  with main_after_decode [OF assms(1)]
  show small: "unat bc_prod < 8388608" by (simp split: if_splits)
  with f main_after_decode [OF assms(1)]
  have "write_hfe env (argv env ! 2) (strtoul (argv env ! 3)) bc_buf bc_prod = Inr f" by simp
  from write_hfe_track_length [OF this] f
  show "declared_track_length env = Some (unat (track_data_length_bytes bc_prod) mod 65536)"
    by (simp add: declared_track_length_def)
qed


lemma accepted_length:
  "unat bc_prod < 8388608 \<Longrightarrow>
   unat (track_data_length_bytes bc_prod) = 2 * ((unat bc_prod + 7) div 8)"
  by (simp add: unat_track_data_length_bytes unat_bc_bytes_of)

lemma written_bytes_placed:
  assumes "decode env = Inr (bc_prod, bc_buf)" "run_error env = None"
    "i < unat (bc_words_of bc_prod)"
  shows "written_bytes env (hfe_offset i) 4
           = Some (pack_word (bits_out_uninit env i) (bc_buf i))"
proof -
  from assms(2) obtain f where f: "main env = Inr f"
    by (auto simp add: run_error_def split: sum.splits)
  with main_after_decode [OF assms(1)]
  have "write_hfe env (argv env ! 2) (strtoul (argv env ! 3)) bc_buf bc_prod = Inr f"
    by (simp split: if_splits)
  note f_eq = write_hfe_Inr [OF this]
  have placed: "hfe_offset i + k < length f \<and>
      f ! (hfe_offset i + k) = pack_word (bits_out_uninit env i) (bc_buf i) ! k"
    if "k < 4" for k
    unfolding f_eq using track_data_loop_placed [OF _ assms(3) that, of 0] by simp
  have "take 4 (drop (hfe_offset i) f) = pack_word (bits_out_uninit env i) (bc_buf i)"
  proof (rule nth_equalityI)
    from placed [of 3] have "hfe_offset i + 3 < length f" by simp
    then show "length (take 4 (drop (hfe_offset i) f))
        = length (pack_word (bits_out_uninit env i) (bc_buf i))"
      by (simp add: length_pack_word)
  next
    fix k assume "k < length (take 4 (drop (hfe_offset i) f))"
    then have k: "k < 4" by simp
    from placed [OF k] k show "take 4 (drop (hfe_offset i) f) ! k
        = pack_word (bits_out_uninit env i) (bc_buf i) ! k"
      by simp
  qed
  with f show ?thesis by (simp add: written_bytes_def)
qed

subsection \<open>The mask, and two runs of the loop on numbers\<close>

lemma and_word_mask_19: "unat (w AND (2 ^ 19 - 1)) = unat w mod 2 ^ 19" for w :: "32 word"
proof -
  have e: "w AND (2 ^ 19 - 1) = take_bit 19 w"
    unfolding take_bit_eq_mask mask_eq_exp_minus_1 ..
  show ?thesis
    unfolding e take_bit_eq_mod by (simp add: unat_mod)
qed

lemma byte_through_loop_example:
  "byte_through_loop (bits_out_uninit (stub_env [] ''ff_master'' 64) 0) 3 0x2D = 0xB4"
  by (simp add: byte_through_loop_def lane_word_def pack_loop.simps stub_env_fields)

lemma pack_word_example:
  "pack_word (bits_out_uninit (stub_env [] ''ff_master'' 64) 0) 0x80402010 = [8, 4, 2, 1]"
  by (simp add: pack_word_def be32toh_def pack_loop.simps stub_env_fields)

text \<open>
  The whole file of the run with the stub reporting 33 bits: the header with the bit
  rate 250, the track descriptor at 0x200 with the length 10, and one word at 0x400.
\<close>

lemma main_example:
  "main (stub_env [] ''ff_master'' 33)
     = Inr ([0x48, 0x58, 0x43, 0x50, 0x49, 0x43, 0x46, 0x45, 0, 1, 1, 0xFF, 0xFA, 1, 0, 0, 7, 0, 1, 0]
            @ replicate 492 0 @ [0x02, 0x00, 0x0A, 0x00] @ replicate 508 0
            @ [0xA5, 0xA5, 0xA5, 0xA5])"
  by (simp add: main_stub_env write_hfe_def Let_def
      stub_env_fields track_data_loop.simps unat_bc_words_of unat_bc_bytes_of
      fwrite_def fseek_set_def header_def track_list_def track_data_length_bytes_def
      bc_bytes_of_def hfe_offset_def pack_word_def be32toh_def pack_loop.simps)

lemma registered_names:
  "map fst ALGS =
    [''ff_v341'', ''ff_master'', ''ff_master_greaseweazle_default_pll'',
     ''ff_master_greaseweazle_fallback_pll'', ''fdc9216'', ''nco_715k'', ''nco_358k'',
     ''nco_178k'', ''nco_1440k_0p2'', ''nco_1440k_0p25'', ''nco_2160k_0p1'',
     ''nco_2160k_0p2'', ''nco_2160k_0p25'', ''nco_2160k_0p5'', ''nco_2160k_1p0'']"
  by (simp add: ALGS_def)

subsection \<open>The guard of line 165\<close>

text \<open>
  What line 165 does for a bit count \<open>bc_prod\<close>: the run stops with \<open>BufferOverflow\<close>
  exactly when \<open>bc_prod div 4\<close> is at least \<open>BC_BUF_SIZE_BYTES\<close>, that is, from 8388608
  bits on.
\<close>

lemma overflow_guard_iff:
  assumes "decode env = Inr (bc_prod, bc_buf)"
  shows "(main env = Inl BufferOverflow \<longleftrightarrow> BC_BUF_SIZE_BYTES \<le> uint bc_prod div 4)
       \<and> (main env = Inl BufferOverflow \<longleftrightarrow> 8388608 \<le> uint bc_prod)
       \<and> (BC_BUF_SIZE_BYTES \<le> (uint bc_prod + 7) div 8 \<longrightarrow> main env = Inl BufferOverflow)"
proof -
  have m: "main env = Inl BufferOverflow \<longleftrightarrow> 8388608 \<le> unat bc_prod"
    unfolding main_after_decode [OF assms] by (simp add: write_hfe_not_overflow)
  have ar: "(8388608 \<le> nat x \<longleftrightarrow> 2 * 1024 * 1024 \<le> x div 4)
      \<and> (8388608 \<le> nat x \<longleftrightarrow> 8388608 \<le> x)
      \<and> (2 * 1024 * 1024 \<le> (x + 7) div 8 \<longrightarrow> 8388608 \<le> nat x)" for x :: int
    by linarith
  have n: "unat bc_prod = nat (uint bc_prod)"
    by (rule unat_eq_nat_uint)
  show ?thesis
    unfolding m n BC_BUF_SIZE_BYTES_def by (rule ar)
qed

subsection \<open>When the wrapped length meets the count of the written bytes\<close>


subsection \<open>A run that reaches the strategy call\<close>

lemma prepare_ok:
  assumes "5 \<le> length (argv env)" "load_samples env (argv env ! 1) = Inr ff_samples"
    "strtoul (argv env ! 3) \<noteq> 0"
    "select_strategy (argv env ! 4) (behind_algorithm env) = Inr s"
  shows "prepare env =
     Inr \<lparr>call_strategy = s,
          call_write_bc_ticks = ucast (36000 div strtoul (argv env ! 3)),
          call_ff_samples = ff_samples,
          call_ff_sample_count = length ff_samples,
          call_bc_buf = malloc_block env,
          call_bc_bufmask = word_of_int (BC_BUF_SIZE_BYTES div 4 - 1)\<rparr>"
  using assms by (simp add: prepare_def Let_def)

section \<open>The claims of the specification\<close>

subsection \<open>C1: the overflow check\<close>

text \<open>
  C1 says that the run fails with \<open>BufferOverflow\<close> if and only if the byte-rounded size
  \<open>\<lceil>bc_prod / 8\<rceil>\<close> is at least the byte capacity \<open>2 * 1024 * 1024\<close> of the buffer, and
  not when that size is one byte below the capacity; the diagnostic of line 167 says
  ``decoded more bitcells than buffer space''. Line 165 divides the bit count by 4 and
  compares the quotient with the capacity in bytes (line 172 turns the same count into
  bytes with a division by 8). So the stub strategy reporting 8388608 bits, which are
  1048576 bytes and half of what the buffer holds, makes the run fail with
  \<open>BufferOverflow\<close>; and so do 16777208 bits, one byte less than the capacity.
\<close>

theorem C1_overflow_below_capacity:
  "run_error (stub_env [] ''ff_master'' 8388608) = Some BufferOverflow
   \<and> \<not> BC_BUF_SIZE_BYTES \<le> (8388608 + 7) div 8
   \<and> 8388608 \<le> BC_BUF_SIZE_BYTES * 8
   \<and> run_error (stub_env [] ''ff_master'' 16777208) = Some BufferOverflow
   \<and> (16777208 + 7) div 8 = BC_BUF_SIZE_BYTES - 1"
  by (simp add: run_error_stub_env BC_BUF_SIZE_BYTES_def)

subsection \<open>C2: the number of words written\<close>

text \<open>
  C2 says that the serializer writes \<open>\<lceil>\<lceil>bc_prod / 8\<rceil> / 4\<rceil>\<close> words, a partly filled last
  word included, and the comment on line 171 says the same (``round up to next byte and
  word''). Line 173 divides instead: for 33 bits the byte count is 5, the word count is
  1 and not 2, and the file ends behind the first word.
\<close>

theorem C2_partial_word_dropped:
  "run_error (stub_env [] ''ff_master'' 33) = None
   \<and> unat (bc_bytes_of 33) = 5
   \<and> unat (bc_words_of 33) = 1
   \<and> written_length (stub_env [] ''ff_master'' 33) = Some (hfe_offset 0 + 4)"
  by (simp add: run_error_stub_env unat_bc_words_of unat_bc_bytes_of written_length_def
      main_stub_env write_hfe_def Let_def stub_env_fields track_data_loop.simps
      length_fwrite fseek_set_def length_pack_word length_header length_track_list hfe_offset_def)

subsection \<open>C3: the contents of the buffer at the strategy call\<close>

text \<open>
  C3, as amended. For every run that reaches the strategy call, the bitcell buffer handed
  to the strategy is the block that \<^verbatim>\<open>malloc\<close> returned on line 129, with the
  contents it had then: the code writes nothing into it before the call, so a word of it
  is 0 only where the allocator's block was.
\<close>

theorem C3_buffer_as_allocated:
  "prepare env = Inr c \<Longrightarrow> call_bc_buf c = malloc_block env"
  by (auto simp add: prepare_def Let_def split: if_splits sum.splits)

theorem C3_witness:
  "handed_word (stub_env [] ''ff_master'' 64) 0
     = Some (malloc_block (stub_env [] ''ff_master'' 64) 0)"
proof -
  obtain c where p: "prepare (stub_env [] ''ff_master'' 64) = Inr c"
    by (simp add: prepare_stub_env)
  from C3_buffer_as_allocated [OF p] p show ?thesis
    by (simp add: handed_word_def)
qed

text \<open>
  C3 as it is stated fails: when the allocator's block holds 0xA5A5A5A5, so does word 0
  of the buffer at the call.
\<close>

theorem C3_counterexample:
  "handed_word (stub_env [] ''ff_master'' 64) 0 = Some 0xA5A5A5A5
   \<and> (0xA5A5A5A5 :: 32 word) \<noteq> 0"
  by (simp add: handed_word_def prepare_stub_env stub_env_fields)

subsection \<open>C4: the mask\<close>

text \<open>
  C4, as amended. The mask passed to every strategy is the capacity of the buffer in
  32-bit words minus one, \<open>BC_BUF_SIZE_BYTES div 4 - 1 = 2 ^ 19 - 1\<close>: it reduces a word
  index modulo the number of words of the buffer.
\<close>

theorem C4_mask_is_word_capacity:
  assumes "prepare env = Inr c"
  shows "call_bc_bufmask c = 2 ^ 19 - 1
       \<and> uint (call_bc_bufmask c) = BC_BUF_SIZE_BYTES div 4 - 1
       \<and> unat (w AND call_bc_bufmask c) = unat w mod 2 ^ 19"
proof -
  from assms have m: "call_bc_bufmask c = 2 ^ 19 - 1"
    by (auto simp add: prepare_def Let_def BC_BUF_SIZE_BYTES_def split: if_splits sum.splits)
  show ?thesis
    unfolding m and_word_mask_19 by (simp add: BC_BUF_SIZE_BYTES_def)
qed

theorem C4_witness:
  "handed_mask (stub_env [] ''ff_master'' 64) = Some (2 ^ 19 - 1)"
proof -
  obtain c where p: "prepare (stub_env [] ''ff_master'' 64) = Inr c"
    by (simp add: prepare_stub_env)
  from C4_mask_is_word_capacity [OF p] p show ?thesis
    by (simp add: handed_mask_def)
qed

text \<open>
  C4 as it is stated fails: the buffer has \<open>2 ^ 24\<close> bits, and the mask is 524287, not
  \<open>2 ^ 24 - 1\<close>.
\<close>

theorem C4_counterexample:
  "handed_mask (stub_env [] ''ff_master'' 64) = Some 524287
   \<and> (524287 :: 32 word) \<noteq> 2 ^ 24 - 1
   \<and> BC_BUF_SIZE_BYTES * 8 = 2 ^ 24"
  by (simp add: handed_mask_def prepare_stub_env BC_BUF_SIZE_BYTES_def)

subsection \<open>C5: an input file of odd size\<close>

text \<open>
  C5, as amended. For every input file whose byte size is odd, when the file opens, no
  library call fails and the size is below \<open>2 ^ 32\<close>, reading the samples succeeds: the
  samples are those of the file without its last byte, \<open>size div 2\<close> of them, and the
  run does not fail with an \<open>InputError\<close>. When moreover the command line has its four
  arguments, the bit rate is not zero and the strategy name resolves, decoding takes
  place: the selected strategy is called on exactly those samples.
\<close>

theorem C5_odd_size_not_rejected:
  assumes "fopen_rb env (argv env ! 1) = Some bytes" "odd (length bytes)"
    "length bytes < 2 ^ 32" "\<not> fseek_fails env" "\<not> ftell_fails env" "\<not> calloc_fails env"
    "fread_fault env = None"
  shows "load_samples env (argv env ! 1) = Inr (samples_of_bytes (butlast bytes))
       \<and> length (samples_of_bytes (butlast bytes)) = length bytes div 2
       \<and> main env \<noteq> Inl (InputError x)
       \<and> (5 \<le> length (argv env) \<longrightarrow> strtoul (argv env ! 3) \<noteq> 0 \<longrightarrow>
            select_strategy (argv env ! 4) (behind_algorithm env) = Inr s \<longrightarrow>
            decode env =
              Inr (invoke env
                \<lparr>call_strategy = s,
                 call_write_bc_ticks = ucast (36000 div strtoul (argv env ! 3)),
                 call_ff_samples = samples_of_bytes (butlast bytes),
                 call_ff_sample_count = length bytes div 2,
                 call_bc_buf = malloc_block env,
                 call_bc_bufmask = word_of_int (BC_BUF_SIZE_BYTES div 4 - 1)\<rparr>))"
proof -
  from assms(2) have "bytes \<noteq> []" by auto
  then have b: "bytes = butlast bytes @ [last bytes]" by simp
  with assms(2) have "even (length (butlast bytes))" by simp
  from samples_of_bytes_odd [OF this, of "last bytes"] b
  have s: "samples_of_bytes bytes = samples_of_bytes (butlast bytes)" by simp
  from load_samples_ok [OF assms(1,4,5,6,7,3)]
  have l: "load_samples env (argv env ! 1) = Inr (samples_of_bytes (butlast bytes))"
    unfolding s .
  have n: "length (samples_of_bytes (butlast bytes)) = length bytes div 2"
    unfolding s [symmetric] by (rule length_samples_of_bytes)
  from l main_InputError [of env x] have m: "main env \<noteq> Inl (InputError x)"
    by auto
  have "decode env =
      Inr (invoke env
        \<lparr>call_strategy = s,
         call_write_bc_ticks = ucast (36000 div strtoul (argv env ! 3)),
         call_ff_samples = samples_of_bytes (butlast bytes),
         call_ff_sample_count = length bytes div 2,
         call_bc_buf = malloc_block env,
         call_bc_bufmask = word_of_int (BC_BUF_SIZE_BYTES div 4 - 1)\<rparr>)"
    if "5 \<le> length (argv env)" "strtoul (argv env ! 3) \<noteq> 0"
      "select_strategy (argv env ! 4) (behind_algorithm env) = Inr s"
    using prepare_ok [OF that(1) l that(2,3)] by (simp add: decode_def n)
  with l n m show ?thesis by blast
qed

theorem C5_witness:
  "load_samples (stub_env [0x10, 0x00, 0x20] ''ff_master'' 64) ''in.ff'' = Inr [0x10]
   \<and> main (stub_env [0x10, 0x00, 0x20] ''ff_master'' 64) \<noteq> Inl (InputError ShortRead)
   \<and> decode (stub_env [0x10, 0x00, 0x20] ''ff_master'' 64)
       = Inr (64, malloc_block (stub_env [0x10, 0x00, 0x20] ''ff_master'' 64))"
  using C5_odd_size_not_rejected [of "stub_env [0x10, 0x00, 0x20] ''ff_master'' 64"
      "[0x10, 0x00, 0x20]" ShortRead "Registered ff_master"]
  by (simp add: stub_env_fields strtoul_250 select_ff_master invoke_def stub_decoder_def)

text \<open>C5 as it is stated fails: a file of three bytes, and the run ends without an error.\<close>

theorem C5_counterexample:
  "odd (length [0x10, 0x00, 0x20 :: 8 word])
   \<and> run_error (stub_env [0x10, 0x00, 0x20] ''ff_master'' 64) = None"
  by (simp add: run_error_stub_env)

subsection \<open>C6: the declared track length\<close>

text \<open>
  C6, as amended. For every run that produces a container and whose doubled byte-rounded
  bit count \<open>2 * \<lceil>bc_prod / 8\<rceil>\<close> is below 65536, the length field of the track descriptor
  equals \<open>2 * \<lceil>bc_prod / 8\<rceil>\<close>; in particular, for a strategy that returns exactly 64 bits the
  declared track length is 16.
\<close>

theorem C6_track_length_below_64K:
  assumes "decode env = Inr (bc_prod, bc_buf)" "run_error env = None"
    "2 * ((unat bc_prod + 7) div 8) < 65536"
  shows "declared_track_length env = Some (2 * ((unat bc_prod + 7) div 8))
       \<and> (bc_prod = 64 \<longrightarrow> declared_track_length env = Some 16)"
proof -
  note d = declared_track_length_eq [OF assms(1,2)]
  from d(1) assms(3) have "declared_track_length env = Some (2 * ((unat bc_prod + 7) div 8))"
    unfolding accepted_length [OF d(2)] by simp
  then show ?thesis by auto
qed

theorem C6_witness:
  "declared_track_length (stub_env [] ''ff_master'' 64) = Some 16"
proof -
  have d: "decode (stub_env [] ''ff_master'' 64)
      = Inr (64, malloc_block (stub_env [] ''ff_master'' 64))"
    by (rule decode_stub_env) simp
  have r: "run_error (stub_env [] ''ff_master'' 64) = None"
    by (simp add: run_error_stub_env)
  from C6_track_length_below_64K [OF d r] show ?thesis by simp
qed

text \<open>
  C6 as it is stated fails: for 262144 bits the run produces a container, twice the byte
  count is 65536, and the field holds 0.
\<close>

theorem C6_counterexample:
  "run_error (stub_env [] ''ff_master'' 262144) = None
   \<and> declared_track_length (stub_env [] ''ff_master'' 262144) = Some 0
   \<and> 2 * ((262144 + 7) div 8) = (65536 :: nat)"
proof -
  have d: "decode (stub_env [] ''ff_master'' 262144)
      = Inr (262144, malloc_block (stub_env [] ''ff_master'' 262144))"
    by (rule decode_stub_env) simp
  have r: "run_error (stub_env [] ''ff_master'' 262144) = None"
    by (simp add: run_error_stub_env)
  note l = declared_track_length_eq [OF d r]
  from l(1) r show ?thesis
    unfolding accepted_length [OF l(2)] by simp
qed

subsection \<open>C7: the storage offset of a word\<close>

text \<open>
  C7. The storage offset is a function of the word index \<open>i\<close> alone,
  \<open>0x400 + ((4 * i) div 256) * 512 + (4 * i) mod 256\<close>; for \<open>i = 0, 63, 64, 127, 128\<close> it is
  0x400, 0x4FC, 0x600, 0x6FC, 0x800. It is the place of the word in the file: in every
  run that produces a container, the four bytes made of buffer word \<open>i\<close> are the four
  bytes of the file from that offset on.
\<close>

theorem C7_block_interleave_offset:
  "hfe_offset i = 0x400 + ((4 * i) div 256) * 512 + (4 * i) mod 256
   \<and> map hfe_offset [0, 63, 64, 127, 128] = [0x400, 0x4FC, 0x600, 0x6FC, 0x800]
   \<and> (decode env = Inr (bc_prod, bc_buf) \<longrightarrow> run_error env = None \<longrightarrow>
        i < unat (bc_words_of bc_prod) \<longrightarrow>
        written_bytes env (hfe_offset i) 4
          = Some (pack_word (bits_out_uninit env i) (bc_buf i)))"
proof -
  have "hfe_offset i = 0x400 + ((4 * i) div 256) * 512 + (4 * i) mod 256"
    by (simp add: hfe_offset_def Let_def mult.commute)
  moreover have "map hfe_offset [0, 63, 64, 127, 128] = [0x400, 0x4FC, 0x600, 0x6FC, 0x800]"
    by (simp add: hfe_offset_def Let_def)
  ultimately show ?thesis
    using written_bytes_placed [of env bc_prod bc_buf i] by blast
qed

theorem C7_witness:
  "hfe_offset 1 = 0x404
   \<and> written_bytes (stub_env [] ''ff_master'' 64) (hfe_offset 1) 4
        = Some (pack_word (bits_out_uninit (stub_env [] ''ff_master'' 64) 1)
                  (malloc_block (stub_env [] ''ff_master'' 64) 1))"
proof -
  have d: "decode (stub_env [] ''ff_master'' 64)
      = Inr (64, malloc_block (stub_env [] ''ff_master'' 64))"
    by (rule decode_stub_env) simp
  have r: "run_error (stub_env [] ''ff_master'' 64) = None"
    by (simp add: run_error_stub_env)
  have w: "1 < unat (bc_words_of 64)"
    by (simp add: unat_bc_words_of unat_bc_bytes_of)
  from C7_block_interleave_offset [of 1 "stub_env [] ''ff_master'' 64" 64
      "malloc_block (stub_env [] ''ff_master'' 64)"] d r w
  have "written_bytes (stub_env [] ''ff_master'' 64) (hfe_offset 1) 4
        = Some (pack_word (bits_out_uninit (stub_env [] ''ff_master'' 64) 1)
                  (malloc_block (stub_env [] ''ff_master'' 64) 1))"
    by blast
  moreover have "hfe_offset 1 = 0x404"
    by (simp add: hfe_offset_def)
  ultimately show ?thesis by blast
qed

subsection \<open>C8: strategy resolution\<close>

text \<open>
  C8. Strategy resolution fails with \<open>UnknownAlgorithm\<close> exactly when the requested name
  does not begin with \<^verbatim>\<open>nco[\<close> and is not, character for character, one of the names of the
  table; the name \<^verbatim>\<open>nco[4,8]\<close> resolves to the generic NCO strategy with integral divisor 4
  and error divisor 8. The failure is fatal and comes before decoding: a run fails with
  \<open>UnknownAlgorithm\<close> only through the resolution, in \<open>prepare\<close>, which ends before the
  strategy call; and a run that reaches the resolution and fails there ends so.
\<close>

theorem C8_strategy_resolution:
  "(select_strategy algorithm behind = Inl UnknownAlgorithm \<longleftrightarrow>
      \<not> prefix ''nco['' algorithm \<and> algorithm \<notin> set (map fst ALGS))
   \<and> select_strategy ''nco[4,8]'' behind = Inr (Nco_generic 4 8)
   \<and> (main env = Inl UnknownAlgorithm \<longrightarrow>
        prepare env = Inl UnknownAlgorithm
        \<and> select_strategy (argv env ! 4) (behind_algorithm env) = Inl UnknownAlgorithm)
   \<and> (5 \<le> length (argv env) \<longrightarrow> load_samples env (argv env ! 1) = Inr s \<longrightarrow>
        strtoul (argv env ! 3) \<noteq> 0 \<longrightarrow>
        select_strategy (argv env ! 4) (behind_algorithm env) = Inl UnknownAlgorithm \<longrightarrow>
        prepare env = Inl UnknownAlgorithm \<and> main env = Inl UnknownAlgorithm)"
  using select_strategy_unknown_iff [of algorithm behind] select_strategy_nco_4_8 [of behind]
    main_unknown [of env] prepare_unknown [of env] unknown_aborts [of env s]
  by blast

text \<open>The name \<^verbatim>\<open>FF_master\<close> differs from a name of the table in the case of two letters.\<close>

theorem C8_witness:
  "select_strategy ''FF_master'' [] = Inl UnknownAlgorithm
   \<and> prepare (stub_env [] ''FF_master'' 64) = Inl UnknownAlgorithm
   \<and> main (stub_env [] ''FF_master'' 64) = Inl UnknownAlgorithm"
proof -
  have n: "\<not> prefix ''nco['' ''FF_master'' \<and> ''FF_master'' \<notin> set (map fst ALGS)"
    by (simp add: ALGS_def)
  have l: "load_samples (stub_env [] ''FF_master'' 64) (argv (stub_env [] ''FF_master'' 64) ! 1)
      = Inr (samples_of_bytes [])"
    by (simp add: stub_env_fields load_samples_stub_env)
  have z: "strtoul (argv (stub_env [] ''FF_master'' 64) ! 3) \<noteq> 0"
    by (simp add: stub_env_fields strtoul_250)
  from C8_strategy_resolution [of "''FF_master''" "[]" "stub_env [] ''FF_master'' 64"
      "samples_of_bytes []"] n l z
  show ?thesis by (simp add: stub_env_fields)
qed

subsection \<open>C9: the bit reversal within a byte\<close>

text \<open>
  C9. The transformation of a byte by the word-packing loop is an involution: for every
  8-bit value \<open>b\<close> and each of the four bytes of a word, sending \<open>b\<close> through the loop
  twice returns \<open>b\<close>, whatever \<^verbatim>\<open>bits_out\<close> held before either run.
\<close>

theorem C9_byte_reversal_involution:
  "byte_through_loop uninit' 0 (byte_through_loop uninit 0 b) = b
   \<and> byte_through_loop uninit' 1 (byte_through_loop uninit 1 b) = b
   \<and> byte_through_loop uninit' 2 (byte_through_loop uninit 2 b) = b
   \<and> byte_through_loop uninit' 3 (byte_through_loop uninit 3 b) = b"
  by (simp add: byte_through_loop_twice)

text \<open>The byte 0x2D through the loop is 0xB4, and through the loop once more 0x2D again.\<close>

theorem C9_witness:
  "byte_through_loop (bits_out_uninit (stub_env [] ''ff_master'' 64) 1) 3
     (byte_through_loop (bits_out_uninit (stub_env [] ''ff_master'' 64) 0) 3 0x2D) = 0x2D
   \<and> byte_through_loop (bits_out_uninit (stub_env [] ''ff_master'' 64) 0) 3 0x2D = 0xB4"
  using C9_byte_reversal_involution [of "bits_out_uninit (stub_env [] ''ff_master'' 64) 1"
      "bits_out_uninit (stub_env [] ''ff_master'' 64) 0" "0x2D"]
    byte_through_loop_example
  by blast

subsection \<open>C10: the declared track length keeps 16 bits\<close>




end
